theory Spec2Isabelle
  imports Main
begin

section \<open>Strings of the platform\<close>

text \<open>
  The service works on JavaScript strings. They are modelled as \<open>string\<close>, a list of
  8-bit code units; \<open>trim\<close>, \<open>toLowerCase\<close>, \<open>includes\<close> and \<open>substring(0, n)\<close> are the
  platform's string methods, written out on that alphabet (\<open>toLowerCase\<close> on the
  letters A to Z; the texts it is compared with are ASCII). \<open>is_space\<close> is the white
  space that both \<open>String.prototype.trim\<close> and the regular-expression class \<open>\s\<close>
  recognise (tab, line feed, vertical tab, form feed, carriage return, space,
  no-break space); \<open>is_word\<close> is the class \<open>\w\<close>.
\<close>

definition is_space :: "char \<Rightarrow> bool" where
  "is_space c = (c \<in> set [CHR 0x09, CHR 0x0A, CHR 0x0B, CHR 0x0C, CHR 0x0D, CHR 0x20, CHR 0xA0])"

definition is_word :: "char \<Rightarrow> bool" where
  "is_word c = (let n = (of_char c :: nat) in
     (48 \<le> n \<and> n \<le> 57) \<or> (65 \<le> n \<and> n \<le> 90) \<or> n = 95 \<or> (97 \<le> n \<and> n \<le> 122))"

definition trim :: "string \<Rightarrow> string" where
  "trim s = rev (dropWhile is_space (rev (dropWhile is_space s)))"

definition lower_char :: "char \<Rightarrow> char" where
  "lower_char c = (let n = (of_char c :: nat) in
     if 65 \<le> n \<and> n \<le> 90 then char_of (n + 32) else c)"

definition toLowerCase :: "string \<Rightarrow> string" where
  "toLowerCase s = map lower_char s"

fun startsWith :: "string \<Rightarrow> string \<Rightarrow> bool" where
  "startsWith s [] = True"
| "startsWith [] (p # ps) = False"
| "startsWith (c # cs) (p # ps) = (c = p \<and> startsWith cs ps)"

fun str_includes :: "string \<Rightarrow> string \<Rightarrow> bool" where
  "str_includes [] t = (t = [])"
| "str_includes (c # cs) t = (startsWith (c # cs) t \<or> str_includes cs t)"

definition substring0 :: "nat \<Rightarrow> string \<Rightarrow> string" where
  "substring0 n s = take n s"

section \<open>Credential manager\<close>

text \<open>
  \<open>geminiService.ts\<close> keeps one module variable \<open>ai\<close> (the client, or \<open>null\<close>) and one
  entry of the browser's local storage under a fixed key. A client is built from the
  key it was given. The fields of \<open>world\<close> are that variable, that storage entry
  (\<open>None\<close> is the \<open>null\<close> that \<open>getItem\<close> returns for a missing entry) and the list of
  content-generation requests sent so far to the remote service.

  The constructor \<open>new GoogleGenAI({apiKey})\<close> belongs to an external library: it is the
  parameter \<open>ctor\<close>, which either yields a client (\<open>Inr\<close>) or throws an error with a
  message (\<open>Inl\<close>). Local storage is taken to be a reliable single-value store.
  Console output is not modelled.
\<close>

datatype client = Client (apiKey: string)

record request =
  req_model :: string
  req_mimeType :: string
  req_data :: string
  req_responseMimeType :: string

record world =
  ai :: "client option"
  storage :: "string option"
  sent :: "request list"

text \<open>
  A thrown value: \<open>Error m\<close> is \<open>new Error(m)\<close>; \<open>TypeError\<close> is the run-time error
  of reading a property of \<open>undefined\<close>.
\<close>

datatype exn = Error string | TypeError

type_synonym ctor = "string \<Rightarrow> string + client"

definition msgEmptyKey :: string where
  "msgEmptyKey = ''API key cannot be empty.''"

definition msgCtorFailed :: string where
  "msgCtorFailed = ''Invalid API Key or failed to initialize Gemini client: ''"

definition setGeminiApiKey :: "ctor \<Rightarrow> string \<Rightarrow> world \<Rightarrow> (exn + unit) \<times> world" where
  "setGeminiApiKey ctor key w =
     (if key = [] \<or> trim key = [] then
        (Inl (Error msgEmptyKey), w\<lparr>ai := None, storage := None\<rparr>)
      else
        (case ctor key of
           Inr c \<Rightarrow> (Inr (), w\<lparr>ai := Some c, storage := Some key\<rparr>)
         | Inl m \<Rightarrow> (Inl (Error (msgCtorFailed @ m)), w\<lparr>ai := None\<rparr>)))"

definition loadApiKeyFromStorage :: "ctor \<Rightarrow> world \<Rightarrow> string option \<times> world" where
  "loadApiKeyFromStorage ctor w =
     (case storage w of
        Some storedKey \<Rightarrow>
          (if storedKey \<noteq> [] then
             (case ctor storedKey of
                Inr c \<Rightarrow> (Some storedKey, w\<lparr>ai := Some c\<rparr>)
              | Inl m \<Rightarrow> (Some storedKey, w\<lparr>ai := None\<rparr>))
           else (None, w\<lparr>ai := None\<rparr>))
      | None \<Rightarrow> (None, w\<lparr>ai := None\<rparr>))"

definition isGeminiClientInitialized :: "world \<Rightarrow> bool" where
  "isGeminiClientInitialized w = (ai w \<noteq> None)"

definition getStoredApiKey :: "world \<Rightarrow> string option" where
  "getStoredApiKey w = storage w"

definition clearGeminiApiKey :: "world \<Rightarrow> world" where
  "clearGeminiApiKey w = w\<lparr>ai := None, storage := None\<rparr>"

section \<open>Analysis orchestrator\<close>

subsection \<open>The fence pattern\<close>

text \<open>
  The response text is matched against the regular expression
  \<^verbatim>\<open>/^```(\w*)?\s*\n?(.*?)\n?\s*```$/s\<close>.
  A backtracking matcher tries the alternatives of each quantifier in priority order and
  returns the first way of matching the whole pattern. Each piece of the pattern is
  written as a function of the remaining input and of a continuation \<open>k\<close> for the rest
  of the pattern; \<open>None\<close> is failure, which makes the caller try its next alternative.
  \<^item> \<open>lit\<close>: a literal.
  \<^item> \<open>star_greedy p\<close>: a greedy star of a character class, longest run first. The
    optional group \<^verbatim>\<open>(\w*)?\<close> tries the same positions in the same order as
    \<^verbatim>\<open>\w*\<close>; its capture is not used by the service.
  \<^item> \<open>opt_greedy c\<close>: an optional character, taken first when present.
  \<^item> \<open>lazy_any\<close>: the lazy \<^verbatim>\<open>(.*?)\<close> under the \<open>s\<close> flag (the dot matches every code
    unit), shortest first; the captured text is passed on to the continuation.
  \<^item> \<open>at_end\<close>: the anchor \<open>$\<close> (no \<open>m\<close> flag: end of input only).
  The anchor \<open>^\<close> is the fact that matching starts at the first code unit only.
\<close>

definition lit :: "string \<Rightarrow> string \<Rightarrow> (string \<Rightarrow> 'a option) \<Rightarrow> 'a option" where
  "lit l s k = (if startsWith s l then k (drop (length l) s) else None)"

fun star_greedy :: "(char \<Rightarrow> bool) \<Rightarrow> string \<Rightarrow> (string \<Rightarrow> 'a option) \<Rightarrow> 'a option" where
  "star_greedy p [] k = k []"
| "star_greedy p (c # cs) k =
     (if p c then
        (case star_greedy p cs k of Some r \<Rightarrow> Some r | None \<Rightarrow> k (c # cs))
      else k (c # cs))"

fun opt_greedy :: "char \<Rightarrow> string \<Rightarrow> (string \<Rightarrow> 'a option) \<Rightarrow> 'a option" where
  "opt_greedy x [] k = k []"
| "opt_greedy x (c # cs) k =
     (if c = x then
        (case k cs of Some r \<Rightarrow> Some r | None \<Rightarrow> k (c # cs))
      else k (c # cs))"

fun lazy_any :: "string \<Rightarrow> string \<Rightarrow> (string \<Rightarrow> string \<Rightarrow> 'a option) \<Rightarrow> 'a option" where
  "lazy_any acc [] k = k acc []"
| "lazy_any acc (c # cs) k =
     (case k acc (c # cs) of Some r \<Rightarrow> Some r | None \<Rightarrow> lazy_any (acc @ [c]) cs k)"

definition at_end :: "'a \<Rightarrow> string \<Rightarrow> 'a option" where
  "at_end r s = (if s = [] then Some r else None)"

definition fence :: string where
  "fence = ''```''"

definition newline :: char where
  "newline = CHR 0x0A"

text \<open>\<open>fenceTail g\<close> is the end of the pattern, \<^verbatim>\<open>\n?\s*```$\<close>, returning the capture \<open>g\<close>.\<close>

definition fenceTail :: "string \<Rightarrow> string \<Rightarrow> string option" where
  "fenceTail g s =
     opt_greedy newline s (\<lambda>s1.
     star_greedy is_space s1 (\<lambda>s2.
     lit fence s2 (at_end g)))"

text \<open>
  \<open>fenceRegex s\<close> is \<open>jsonStr.match(fenceRegex)\<close>: \<open>None\<close> when there is no match,
  otherwise the second capture group \<open>match[2]\<close>.
\<close>

definition fenceRegex :: "string \<Rightarrow> string option" where
  "fenceRegex s =
     lit fence s (\<lambda>s1.
     star_greedy is_word s1 (\<lambda>s2.
     star_greedy is_space s2 (\<lambda>s3.
     opt_greedy newline s3 (\<lambda>s4.
     lazy_any [] s4 fenceTail))))"

text \<open>
  \<open>extractJson\<close> is the text handed to \<open>JSON.parse\<close>: the trimmed response, or the
  trimmed second group when the pattern matches and that group is not empty.
\<close>

definition extractJson :: "string \<Rightarrow> string" where
  "extractJson responseText =
     (let jsonStr = trim responseText in
      case fenceRegex jsonStr of
        Some g \<Rightarrow> if g \<noteq> [] then trim g else jsonStr
      | None \<Rightarrow> jsonStr)"

subsection \<open>The request and its outcome\<close>

text \<open>
  The remote service and \<open>JSON.parse\<close> are external: \<open>remote\<close> gives the outcome of
  \<open>ai.models.generateContent\<close> for a client and a request, and \<open>parse\<close> is
  \<open>JSON.parse\<close>, with \<open>None\<close> for a thrown syntax error. \<open>Rejects m\<close> is a failed
  request whose error has the \<open>message\<close> property \<open>m\<close> (\<open>None\<close> when it has none);
  \<open>Responds t\<close> is a response whose \<open>text\<close> is \<open>t\<close> (\<open>None\<close> when undefined).
  The prompt and the sampling temperature are constants of every request and are left
  out of \<open>request\<close>. The call is taken as one step: nothing else runs while the
  request is awaited.
\<close>

datatype remote_outcome = Rejects "string option" | Responds "string option"

type_synonym remote = "client \<Rightarrow> request \<Rightarrow> remote_outcome"

type_synonym 'a parser = "string \<Rightarrow> 'a option"

definition modelName :: string where
  "modelName = ''gemini-2.5-flash-preview-04-17''"

definition msgNotInitialized :: string where
  "msgNotInitialized = ''Gemini API client is not initialized. Please set your API key.''"

definition msgEmptyResponse :: string where
  "msgEmptyResponse = ''Received an empty response from the AI.''"

definition msgParseFailed :: string where
  "msgParseFailed = ''Failed to parse analysis data from AI. Raw response: ''"

definition msgInvalidKey :: string where
  "msgInvalidKey = ''Invalid Gemini API Key. Please check your key and set it again.''"

definition msgQuota :: string where
  "msgQuota = ''Gemini API request failed due to quota limits: ''"

definition msgGeneric :: string where
  "msgGeneric = ''Error analyzing chart with Gemini: ''"

definition msgUnknown :: string where
  "msgUnknown = ''Unknown error''"

text \<open>\<open>falsy\<close> is JavaScript's \<open>!v\<close> for a value that is a string, \<open>null\<close> or \<open>undefined\<close>.\<close>

fun falsy :: "string option \<Rightarrow> bool" where
  "falsy None = True"
| "falsy (Some s) = (s = [])"

text \<open>Lines 87 to 95: the client to use, after one reload from storage when there is none.\<close>

definition ensureClient :: "ctor \<Rightarrow> world \<Rightarrow> (exn + client) \<times> world" where
  "ensureClient ctor w =
     (case ai w of
        Some c \<Rightarrow> (Inr c, w)
      | None \<Rightarrow>
          (case loadApiKeyFromStorage ctor w of (keyFromStorage, w') \<Rightarrow>
             (case ai w' of
                None \<Rightarrow> (Inl (Error msgNotInitialized), w')
              | Some c \<Rightarrow>
                  if falsy keyFromStorage then (Inl (Error msgNotInitialized), w')
                  else (Inr c, w'))))"

text \<open>Lines 98 to 116: the request built from the encoded image and its media type.\<close>

definition mkRequest :: "string \<Rightarrow> string \<Rightarrow> request" where
  "mkRequest imageBase64Data mime =
     \<lparr>req_model = modelName, req_mimeType = mime,
      req_data = imageBase64Data, req_responseMimeType = ''application/json''\<rparr>"

text \<open>Lines 124 to 133: decoding a non-empty response text.\<close>

definition decodeResponse :: "'a parser \<Rightarrow> string \<Rightarrow> 'a option" where
  "decodeResponse parse responseText = parse (extractJson responseText)"

text \<open>
  Lines 109 to 138, the rest of the \<open>try\<close> block: \<open>Inr\<close> is the value returned,
  \<open>Inl m\<close> an error thrown inside the block, given by its \<open>message\<close> property.
\<close>

definition generate :: "remote \<Rightarrow> 'a parser \<Rightarrow> client \<Rightarrow> request \<Rightarrow> string option + 'a" where
  "generate remote parse c req =
     (case remote c req of
        Rejects m \<Rightarrow> Inl m
      | Responds responseText \<Rightarrow>
          (case responseText of
             None \<Rightarrow> Inl (Some msgEmptyResponse)
           | Some t \<Rightarrow>
               if t = [] then Inl (Some msgEmptyResponse)
               else
                 (case decodeResponse parse t of
                    Some parsedData \<Rightarrow> Inr parsedData
                  | None \<Rightarrow> Inl (Some (msgParseFailed @ substring0 200 t @ ''...'')))))"

text \<open>
  Lines 140 to 152, the \<open>catch\<close> block. Its first condition is
  \<open>(message && a) || b\<close> with \<open>b = message.toLowerCase().includes(...)\<close>: when the
  error has no message the left operand is falsy, so \<open>b\<close> is evaluated and reading
  \<open>toLowerCase\<close> of \<open>undefined\<close> throws.
\<close>

definition classify :: "string option \<Rightarrow> world \<Rightarrow> exn \<times> world" where
  "classify message w =
     (case message of
        None \<Rightarrow> (TypeError, w)
      | Some m \<Rightarrow>
          if (m \<noteq> [] \<and> str_includes (toLowerCase m) ''api key not valid'')
             \<or> str_includes (toLowerCase m) ''invalid api key''
          then (Error msgInvalidKey, w\<lparr>ai := None\<rparr>)
          else if m \<noteq> [] \<and> str_includes m ''quota'' then (Error (msgQuota @ m), w)
          else (Error (msgGeneric @ (if m \<noteq> [] then m else msgUnknown)), w))"

definition analyzeChartWithGemini ::
    "ctor \<Rightarrow> remote \<Rightarrow> 'a parser \<Rightarrow> string \<Rightarrow> string \<Rightarrow> world \<Rightarrow> (exn + 'a) \<times> world" where
  "analyzeChartWithGemini ctor remote parse imageBase64Data mime w =
     (case ensureClient ctor w of
        (Inl e, w1) \<Rightarrow> (Inl e, w1)
      | (Inr c, w1) \<Rightarrow>
          (let req = mkRequest imageBase64Data mime;
               w2 = w1\<lparr>sent := sent w1 @ [req]\<rparr>
           in case generate remote parse c req of
                Inr parsedData \<Rightarrow> (Inr parsedData, w2)
              | Inl m \<Rightarrow> (case classify m w2 of (e, w3) \<Rightarrow> (Inl e, w3))))"

section \<open>Invariants and scenarios\<close>

text \<open>
  \<open>handleBacked\<close>: a live client is backed by a stored key. \<open>secretStored\<close>: the
  storage entry, when present, is a credential of the data model, that is a non-empty
  string; the only write to storage, in \<open>setGeminiApiKey\<close>, stores a key that passed
  the non-empty check.
\<close>

definition handleBacked :: "world \<Rightarrow> bool" where
  "handleBacked w = (ai w \<noteq> None \<longrightarrow> storage w \<noteq> None)"

definition secretStored :: "world \<Rightarrow> bool" where
  "secretStored w = (storage w \<noteq> Some [])"

text \<open>
  Collaborators and states for the scenarios: a constructor that accepts every key and
  one that rejects every key, a remote service with a fixed outcome, a parser that
  knows one JSON document and throws on every other text, a world with a live client
  and a fresh one.
\<close>

definition ctorAccepts :: ctor where
  "ctorAccepts key = Inr (Client key)"

definition ctorRejects :: ctor where
  "ctorRejects key = Inl ''API key must be set''"

definition remoteAlways :: "remote_outcome \<Rightarrow> remote" where
  "remoteAlways out c req = out"

definition trendsJson :: string where
  "trendsJson = ''{\"trends\":\"up\"}''"

definition parseTrends :: "(string \<times> string) list parser" where
  "parseTrends s = (if s = trendsJson then Some [(''trends'', ''up'')] else None)"

definition readyWorld :: world where
  "readyWorld = \<lparr>ai = Some (Client ''k1''), storage = Some ''k1'', sent = []\<rparr>"

definition freshWorld :: world where
  "freshWorld = \<lparr>ai = None, storage = None, sent = []\<rparr>"

definition storedOnlyWorld :: world where
  "storedOnlyWorld = \<lparr>ai = None, storage = Some ''k1'', sent = []\<rparr>"

section \<open>Properties of the credential manager\<close>

text \<open>
  C7. For every secret that is non-empty after trimming and for which client
  construction succeeds, \<open>setGeminiApiKey\<close> returns normally, and afterwards the client
  is initialised and the stored key is that secret.
\<close>

theorem setGeminiApiKey_success:
  assumes "trim key \<noteq> []" and "ctor key = Inr c"
  shows "fst (setGeminiApiKey ctor key w) = Inr ()
       \<and> isGeminiClientInitialized (snd (setGeminiApiKey ctor key w))
       \<and> getStoredApiKey (snd (setGeminiApiKey ctor key w)) = Some key"
proof -
  from assms(1) have "key \<noteq> []"
    by (auto simp: trim_def)
  with assms show ?thesis
    by (simp add: setGeminiApiKey_def isGeminiClientInitialized_def getStoredApiKey_def)
qed

theorem setGeminiApiKey_success_witness:
  "trim ''k1'' \<noteq> [] \<and> ctorAccepts ''k1'' = Inr (Client ''k1'')
   \<and> fst (setGeminiApiKey ctorAccepts ''k1'' freshWorld) = Inr ()
   \<and> isGeminiClientInitialized (snd (setGeminiApiKey ctorAccepts ''k1'' freshWorld))
   \<and> getStoredApiKey (snd (setGeminiApiKey ctorAccepts ''k1'' freshWorld)) = Some ''k1''"
proof -
  have h1: "trim ''k1'' \<noteq> []"
    by (simp add: trim_def is_space_def)
  have h2: "ctorAccepts ''k1'' = Inr (Client ''k1'')"
    by (simp add: ctorAccepts_def)
  from setGeminiApiKey_success [where ctor = ctorAccepts and w = freshWorld, OF h1 h2] h1 h2 show ?thesis
    by (intro conjI) simp_all
qed

text \<open>
  C8. For every secret that is empty or consists of white space only,
  \<open>setGeminiApiKey\<close> fails with the empty-key error (InvalidInput), the client is
  absent afterwards and the stored key is removed.
\<close>

theorem setGeminiApiKey_blank:
  assumes "trim key = []"
  shows "fst (setGeminiApiKey ctor key w) = Inl (Error msgEmptyKey)
       \<and> \<not> isGeminiClientInitialized (snd (setGeminiApiKey ctor key w))
       \<and> getStoredApiKey (snd (setGeminiApiKey ctor key w)) = None"
  using assms
  by (simp add: setGeminiApiKey_def isGeminiClientInitialized_def getStoredApiKey_def)

theorem setGeminiApiKey_blank_witness:
  "trim ''   '' = []
   \<and> fst (setGeminiApiKey ctorAccepts ''   '' readyWorld) = Inl (Error msgEmptyKey)
   \<and> \<not> isGeminiClientInitialized (snd (setGeminiApiKey ctorAccepts ''   '' readyWorld))
   \<and> getStoredApiKey (snd (setGeminiApiKey ctorAccepts ''   '' readyWorld)) = None"
proof -
  have h: "trim ''   '' = []"
    by (simp add: trim_def is_space_def)
  from setGeminiApiKey_blank [where ctor = ctorAccepts and w = readyWorld, OF h] h show ?thesis
    by (intro conjI) simp_all
qed

text \<open>
  C9. \<open>loadApiKeyFromStorage\<close> returns the stored secret whenever there is one,
  whether or not a client can be built from it, and returns absent when nothing is
  stored; it never changes the storage; the client afterwards is the one built from
  the stored secret when construction succeeds and is absent otherwise. A stored
  secret is a non-empty string (\<open>secretStored\<close>).
\<close>

theorem loadApiKeyFromStorage_result:
  assumes "secretStored w"
  shows "fst (loadApiKeyFromStorage ctor w) = storage w
       \<and> storage (snd (loadApiKeyFromStorage ctor w)) = storage w
       \<and> ai (snd (loadApiKeyFromStorage ctor w)) =
           (case storage w of
              None \<Rightarrow> None
            | Some k \<Rightarrow> (case ctor k of Inr c \<Rightarrow> Some c | Inl m \<Rightarrow> None))"
  using assms
  by (simp add: loadApiKeyFromStorage_def secretStored_def split: option.splits sum.splits)

theorem loadApiKeyFromStorage_result_witness:
  "secretStored storedOnlyWorld
   \<and> fst (loadApiKeyFromStorage ctorRejects storedOnlyWorld) = Some ''k1''
   \<and> storage (snd (loadApiKeyFromStorage ctorRejects storedOnlyWorld)) = Some ''k1''
   \<and> ai (snd (loadApiKeyFromStorage ctorRejects storedOnlyWorld)) = None"
proof -
  have h: "secretStored storedOnlyWorld"
    by (simp add: secretStored_def storedOnlyWorld_def)
  have s: "storage storedOnlyWorld = Some ''k1''"
    by (simp add: storedOnlyWorld_def)
  from loadApiKeyFromStorage_result [where ctor = ctorRejects, OF h] h show ?thesis
    by (simp add: s ctorRejects_def)
qed

text \<open>Every operation of the credential manager keeps the stored entry a credential.\<close>

lemma secretStored_preserved:
  assumes "secretStored w"
  shows "secretStored (snd (setGeminiApiKey ctor key w))"
    and "secretStored (snd (loadApiKeyFromStorage ctor w))"
    and "secretStored (clearGeminiApiKey w)"
  using assms
  by (auto simp: secretStored_def setGeminiApiKey_def loadApiKeyFromStorage_def
      clearGeminiApiKey_def split: option.splits sum.splits)

section \<open>Properties of the orchestrator\<close>

text \<open>
  \<open>ensureClient ctor w = (Inr c, w1)\<close> says that the call gets as far as the request,
  sent with client \<open>c\<close>: either the client was live, or the reload installed it.
\<close>

lemma ensureClient_ready: "ai w = Some c \<Longrightarrow> ensureClient ctor w = (Inr c, w)"
  by (simp add: ensureClient_def)

lemma ensureClient_reload:
  "ai w = None \<Longrightarrow> storage w = Some k \<Longrightarrow> k \<noteq> [] \<Longrightarrow> ctor k = Inr c
   \<Longrightarrow> ensureClient ctor w = (Inr c, w\<lparr>ai := Some c\<rparr>)"
  by (simp add: ensureClient_def loadApiKeyFromStorage_def)

lemma ensureClient_world:
  "ensureClient ctor w = (r, w1) \<Longrightarrow> storage w1 = storage w \<and> sent w1 = sent w"
  by (auto simp: ensureClient_def loadApiKeyFromStorage_def split: option.splits sum.splits if_splits)

lemma analyze_thrown:
  assumes "ensureClient ctor w = (Inr c, w1)"
    and "generate remote parse c (mkRequest img mime) = Inl m"
  shows "analyzeChartWithGemini ctor remote parse img mime w =
           (Inl (fst (classify m (w1\<lparr>sent := sent w1 @ [mkRequest img mime]\<rparr>))),
            snd (classify m (w1\<lparr>sent := sent w1 @ [mkRequest img mime]\<rparr>)))"
  using assms by (simp add: analyzeChartWithGemini_def Let_def split: prod.splits)

text \<open>
  C1. When the request is made and fails with an error whose message contains, in any
  letter case, "invalid api key" or "api key not valid", the call fails with the
  invalid-key error (RemoteAuthRejected) and the client is torn down, so that
  \<open>isGeminiClientInitialized\<close> is false afterwards.
\<close>

theorem analyze_auth_rejected:
  assumes "ensureClient ctor w = (Inr c, w1)"
    and "remote c (mkRequest img mime) = Rejects (Some m)"
    and "str_includes (toLowerCase m) ''invalid api key''
         \<or> str_includes (toLowerCase m) ''api key not valid''"
  shows "fst (analyzeChartWithGemini ctor remote parse img mime w) = Inl (Error msgInvalidKey)
       \<and> \<not> isGeminiClientInitialized (snd (analyzeChartWithGemini ctor remote parse img mime w))"
proof -
  from assms(3) have "m \<noteq> []"
    by (auto simp: toLowerCase_def)
  with assms(3) have "classify (Some m) w' = (Error msgInvalidKey, w'\<lparr>ai := None\<rparr>)" for w'
    by (auto simp: classify_def)
  moreover from assms(2) have "generate remote parse c (mkRequest img mime) = Inl (Some m)"
    by (simp add: generate_def)
  note analyze_thrown [OF assms(1) this]
  ultimately show ?thesis
    by (simp add: isGeminiClientInitialized_def)
qed

theorem analyze_auth_rejected_witness:
  "ensureClient ctorAccepts readyWorld = (Inr (Client ''k1''), readyWorld)
   \<and> remoteAlways (Rejects (Some ''API key not valid'')) (Client ''k1'')
        (mkRequest ''aW1n'' ''image/png'') = Rejects (Some ''API key not valid'')
   \<and> str_includes (toLowerCase ''API key not valid'') ''api key not valid''
   \<and> fst (analyzeChartWithGemini ctorAccepts (remoteAlways (Rejects (Some ''API key not valid'')))
        parseTrends ''aW1n'' ''image/png'' readyWorld) = Inl (Error msgInvalidKey)
   \<and> \<not> isGeminiClientInitialized (snd (analyzeChartWithGemini ctorAccepts
        (remoteAlways (Rejects (Some ''API key not valid''))) parseTrends ''aW1n'' ''image/png''
        readyWorld))"
proof -
  have h1: "ensureClient ctorAccepts readyWorld = (Inr (Client ''k1''), readyWorld)"
    by (simp add: ensureClient_def readyWorld_def)
  have h2: "remoteAlways (Rejects (Some ''API key not valid'')) (Client ''k1'')
        (mkRequest ''aW1n'' ''image/png'') = Rejects (Some ''API key not valid'')"
    by (simp add: remoteAlways_def)
  have h3: "str_includes (toLowerCase ''API key not valid'') ''api key not valid''"
    by code_simp
  from h3 have h3': "str_includes (toLowerCase ''API key not valid'') ''invalid api key''
         \<or> str_includes (toLowerCase ''API key not valid'') ''api key not valid''"
    by (rule disjI2)
  from analyze_auth_rejected [where parse = parseTrends
      and remote = "remoteAlways (Rejects (Some ''API key not valid''))", OF h1 h2 h3'] h1 h2 h3
  show ?thesis
    by (intro conjI) simp_all
qed

text \<open>
  C4. When there is no client and the one reload from storage does not yield one, the
  call fails with the not-initialised error (NotAuthenticated) and no request is sent
  to the remote service.
\<close>

theorem analyze_not_authenticated:
  assumes "ai w = None" and "ai (snd (loadApiKeyFromStorage ctor w)) = None"
  shows "fst (analyzeChartWithGemini ctor remote parse img mime w) = Inl (Error msgNotInitialized)
       \<and> sent (snd (analyzeChartWithGemini ctor remote parse img mime w)) = sent w"
proof -
  obtain k w' where l: "loadApiKeyFromStorage ctor w = (k, w')"
    by (cases "loadApiKeyFromStorage ctor w")
  with assms(2) have "ai w' = None"
    by simp
  with assms(1) l have e: "ensureClient ctor w = (Inl (Error msgNotInitialized), w')"
    by (simp add: ensureClient_def)
  from ensureClient_world [OF e] have "sent w' = sent w"
    by simp
  with e show ?thesis
    by (simp add: analyzeChartWithGemini_def)
qed

theorem analyze_not_authenticated_witness:
  "ai freshWorld = None \<and> ai (snd (loadApiKeyFromStorage ctorAccepts freshWorld)) = None
   \<and> fst (analyzeChartWithGemini ctorAccepts (remoteAlways (Responds (Some trendsJson)))
        parseTrends ''aW1n'' ''image/png'' freshWorld) = Inl (Error msgNotInitialized)
   \<and> sent (snd (analyzeChartWithGemini ctorAccepts (remoteAlways (Responds (Some trendsJson)))
        parseTrends ''aW1n'' ''image/png'' freshWorld)) = []"
proof -
  have h1: "ai freshWorld = None"
    by (simp add: freshWorld_def)
  have h2: "ai (snd (loadApiKeyFromStorage ctorAccepts freshWorld)) = None"
    by (simp add: loadApiKeyFromStorage_def freshWorld_def)
  have s: "sent freshWorld = []"
    by (simp add: freshWorld_def)
  from analyze_not_authenticated [where remote = "remoteAlways (Responds (Some trendsJson))"
      and parse = parseTrends, OF h1 h2] h1 h2 s
  show ?thesis
    by (intro conjI) simp_all
qed

lemma classify_emptyResponse:
  "classify (Some msgEmptyResponse) w = (Error (msgGeneric @ msgEmptyResponse), w)"
proof -
  have "\<not> str_includes (toLowerCase msgEmptyResponse) ''api key not valid''"
    by code_simp
  moreover have "\<not> str_includes (toLowerCase msgEmptyResponse) ''invalid api key''"
    by code_simp
  moreover have "\<not> str_includes msgEmptyResponse ''quota''"
    by code_simp
  moreover have "msgEmptyResponse \<noteq> []"
    by (simp add: msgEmptyResponse_def)
  ultimately show ?thesis
    by (simp add: classify_def)
qed

text \<open>
  C3, as the code has it. When the request is made and succeeds with an empty or
  absent text, the call fails with the empty-response message behind the prefix of the
  \<open>catch\<close> block: the message that reaches the caller is
  "Error analyzing chart with Gemini: " followed by the empty-response message.
\<close>

theorem analyze_empty_response:
  assumes "ensureClient ctor w = (Inr c, w1)"
    and "remote c (mkRequest img mime) = Responds t"
    and "falsy t"
  shows "fst (analyzeChartWithGemini ctor remote parse img mime w) =
           Inl (Error (msgGeneric @ msgEmptyResponse))"
proof -
  from assms(2,3) have "generate remote parse c (mkRequest img mime) = Inl (Some msgEmptyResponse)"
    by (cases t) (simp_all add: generate_def)
  from analyze_thrown [OF assms(1) this] show ?thesis
    by (simp add: classify_emptyResponse)
qed

theorem analyze_empty_response_witness:
  "ensureClient ctorAccepts storedOnlyWorld =
       (Inr (Client ''k1''), storedOnlyWorld\<lparr>ai := Some (Client ''k1'')\<rparr>)
   \<and> remoteAlways (Responds (Some [])) (Client ''k1'') (mkRequest ''aW1n'' ''image/png'')
       = Responds (Some [])
   \<and> falsy (Some [])
   \<and> fst (analyzeChartWithGemini ctorAccepts (remoteAlways (Responds (Some []))) parseTrends
        ''aW1n'' ''image/png'' storedOnlyWorld) =
       Inl (Error (msgGeneric @ msgEmptyResponse))"
proof -
  have h1: "ensureClient ctorAccepts storedOnlyWorld =
      (Inr (Client ''k1''), storedOnlyWorld\<lparr>ai := Some (Client ''k1'')\<rparr>)"
    by (simp add: ensureClient_def loadApiKeyFromStorage_def storedOnlyWorld_def ctorAccepts_def)
  have h2: "remoteAlways (Responds (Some [])) (Client ''k1'') (mkRequest ''aW1n'' ''image/png'')
      = Responds (Some [])"
    by (simp add: remoteAlways_def)
  have h3: "falsy (Some [])"
    by simp
  from analyze_empty_response [where parse = parseTrends
      and remote = "remoteAlways (Responds (Some []))", OF h1 h2 h3] h1 h2 h3
  show ?thesis
    by (intro conjI) simp_all
qed

text \<open>
  C3, as the claim states it, fails: the error that reaches the caller is not the
  empty-response error itself. With a live client and a response without text, the
  message is the wrapped one.
\<close>

theorem analyze_empty_response_counterexample:
  "fst (analyzeChartWithGemini ctorAccepts (remoteAlways (Responds None)) parseTrends
        ''aW1n'' ''image/png'' readyWorld)
     = Inl (Error ''Error analyzing chart with Gemini: Received an empty response from the AI.'')
   \<and> fst (analyzeChartWithGemini ctorAccepts (remoteAlways (Responds None)) parseTrends
        ''aW1n'' ''image/png'' readyWorld)
     \<noteq> Inl (Error msgEmptyResponse)"
proof -
  have e: "ensureClient ctorAccepts readyWorld = (Inr (Client ''k1''), readyWorld)"
    by (simp add: ensureClient_def readyWorld_def)
  have g: "generate (remoteAlways (Responds None)) parseTrends (Client ''k1'')
      (mkRequest ''aW1n'' ''image/png'') = Inl (Some msgEmptyResponse)"
    by (simp add: generate_def remoteAlways_def)
  from analyze_thrown [OF e g]
  have "fst (analyzeChartWithGemini ctorAccepts (remoteAlways (Responds None)) parseTrends
        ''aW1n'' ''image/png'' readyWorld) = Inl (Error (msgGeneric @ msgEmptyResponse))"
    by (simp add: classify_emptyResponse)
  then show ?thesis
    by (simp add: msgGeneric_def msgEmptyResponse_def)
qed

text \<open>
  C6 on the code. A failed request whose error has no \<open>message\<close> does not end in the
  generic error with the "Unknown error" placeholder: the \<open>catch\<close> block itself
  throws a \<open>TypeError\<close>, since \<open>error.message.toLowerCase()\<close> is evaluated on
  \<open>undefined\<close>. The same condition in \<open>App.tsx\<close> is written
  \<open>message && (a || b)\<close>.
\<close>

theorem analyze_no_message_crash:
  "fst (analyzeChartWithGemini ctorAccepts (remoteAlways (Rejects None)) parseTrends
        ''aW1n'' ''image/png'' readyWorld) = Inl TypeError
   \<and> fst (analyzeChartWithGemini ctorAccepts (remoteAlways (Rejects None)) parseTrends
        ''aW1n'' ''image/png'' readyWorld) \<noteq> Inl (Error (msgGeneric @ msgUnknown))"
proof -
  have e: "ensureClient ctorAccepts readyWorld = (Inr (Client ''k1''), readyWorld)"
    by (simp add: ensureClient_def readyWorld_def)
  have g: "generate (remoteAlways (Rejects None)) parseTrends (Client ''k1'')
      (mkRequest ''aW1n'' ''image/png'') = Inl None"
    by (simp add: generate_def remoteAlways_def)
  from analyze_thrown [OF e g] show ?thesis
    by (simp add: classify_def)
qed

text \<open>
  For an error that does have a message, matching neither the key signal nor the
  quota signal, the call fails with the generic error carrying that message, or the
  placeholder when the message is the empty string.
\<close>

lemma analyze_transport_failure:
  assumes "ensureClient ctor w = (Inr c, w1)"
    and "remote c (mkRequest img mime) = Rejects (Some m)"
    and "\<not> str_includes (toLowerCase m) ''api key not valid''"
    and "\<not> str_includes (toLowerCase m) ''invalid api key''"
    and "\<not> str_includes m ''quota''"
  shows "analyzeChartWithGemini ctor remote parse img mime w =
           (Inl (Error (msgGeneric @ (if m = [] then msgUnknown else m))),
            w1\<lparr>sent := sent w1 @ [mkRequest img mime]\<rparr>)"
proof -
  from assms(2) have "generate remote parse c (mkRequest img mime) = Inl (Some m)"
    by (simp add: generate_def)
  from analyze_thrown [OF assms(1) this] assms(3-5) show ?thesis
    by (simp add: classify_def)
qed

text \<open>
  C2 on the code. The parse-failure error is thrown inside the \<open>try\<close> block, so the
  \<open>catch\<close> block classifies it by its message, which quotes the response. A response
  that is not JSON and whose text is "invalid api key" ends in the invalid-key error,
  without excerpt, and tears the client down; one whose text is "quota" is reported as
  a quota failure.
\<close>

theorem analyze_malformed_misclassified:
  "analyzeChartWithGemini ctorAccepts (remoteAlways (Responds (Some ''invalid api key'')))
        parseTrends ''aW1n'' ''image/png'' readyWorld
     = (Inl (Error msgInvalidKey),
        readyWorld\<lparr>ai := None, sent := [mkRequest ''aW1n'' ''image/png'']\<rparr>)
   \<and> fst (analyzeChartWithGemini ctorAccepts (remoteAlways (Responds (Some ''quota'')))
        parseTrends ''aW1n'' ''image/png'' readyWorld)
     = Inl (Error (msgQuota @ msgParseFailed @ ''quota...''))"
proof -
  have e: "ensureClient ctorAccepts readyWorld = (Inr (Client ''k1''), readyWorld)"
    by (simp add: ensureClient_def readyWorld_def)
  have x1: "extractJson ''invalid api key'' = ''invalid api key''"
    by code_simp
  have x2: "extractJson ''quota'' = ''quota''"
    by code_simp
  have g1: "generate (remoteAlways (Responds (Some ''invalid api key''))) parseTrends (Client ''k1'')
      (mkRequest ''aW1n'' ''image/png'') = Inl (Some (msgParseFailed @ ''invalid api key...''))"
    by (simp add: generate_def remoteAlways_def decodeResponse_def x1 parseTrends_def
        trendsJson_def substring0_def)
  have g2: "generate (remoteAlways (Responds (Some ''quota''))) parseTrends (Client ''k1'')
      (mkRequest ''aW1n'' ''image/png'') = Inl (Some (msgParseFailed @ ''quota...''))"
    by (simp add: generate_def remoteAlways_def decodeResponse_def x2 parseTrends_def
        trendsJson_def substring0_def)
  have c1: "str_includes (toLowerCase (msgParseFailed @ ''invalid api key...'')) ''invalid api key''"
    by code_simp
  have c2: "\<not> str_includes (toLowerCase (msgParseFailed @ ''quota...'')) ''api key not valid''"
    by code_simp
  have c3: "\<not> str_includes (toLowerCase (msgParseFailed @ ''quota...'')) ''invalid api key''"
    by code_simp
  have c4: "str_includes (msgParseFailed @ ''quota...'') ''quota''"
    by code_simp
  have n: "msgParseFailed @ ''quota...'' \<noteq> []"
    by (simp add: msgParseFailed_def)
  have a1: "analyzeChartWithGemini ctorAccepts (remoteAlways (Responds (Some ''invalid api key'')))
        parseTrends ''aW1n'' ''image/png'' readyWorld
     = (Inl (Error msgInvalidKey),
        readyWorld\<lparr>ai := None, sent := [mkRequest ''aW1n'' ''image/png'']\<rparr>)"
    using analyze_thrown [OF e g1] c1 by (simp add: classify_def readyWorld_def)
  have a2: "fst (analyzeChartWithGemini ctorAccepts (remoteAlways (Responds (Some ''quota'')))
        parseTrends ''aW1n'' ''image/png'' readyWorld)
     = Inl (Error (msgQuota @ msgParseFailed @ ''quota...''))"
    using analyze_thrown [OF e g2] c2 c3 c4 n by (simp add: classify_def)
  from a1 a2 show ?thesis
    by (rule conjI)
qed

text \<open>
  A response that is not JSON and whose quoted excerpt matches none of the signals ends
  in the generic error carrying the parse-failure message: at most 200 code units of
  the response, followed by "...".
\<close>

lemma analyze_malformed_unmatched:
  assumes "ensureClient ctor w = (Inr c, w1)"
    and "remote c (mkRequest img mime) = Responds (Some t)"
    and "t \<noteq> []"
    and "decodeResponse parse t = None"
    and "\<not> str_includes (toLowerCase (msgParseFailed @ take 200 t @ ''...'')) ''api key not valid''"
    and "\<not> str_includes (toLowerCase (msgParseFailed @ take 200 t @ ''...'')) ''invalid api key''"
    and "\<not> str_includes (msgParseFailed @ take 200 t @ ''...'') ''quota''"
  shows "analyzeChartWithGemini ctor remote parse img mime w =
           (Inl (Error (msgGeneric @ msgParseFailed @ take 200 t @ ''...'')),
            w1\<lparr>sent := sent w1 @ [mkRequest img mime]\<rparr>)"
proof -
  from assms(2-4) have "generate remote parse c (mkRequest img mime)
      = Inl (Some (msgParseFailed @ take 200 t @ ''...''))"
    by (simp add: generate_def substring0_def)
  from analyze_thrown [OF assms(1) this] assms(5-7) show ?thesis
    by (simp add: classify_def msgParseFailed_def)
qed

text \<open>
  C10. Every operation that writes the client keeps \<open>handleBacked\<close>: after
  \<open>setGeminiApiKey\<close>, \<open>loadApiKeyFromStorage\<close>, \<open>clearGeminiApiKey\<close> and
  \<open>analyzeChartWithGemini\<close>, whatever their outcome, a live client has a stored key
  behind it.
\<close>

theorem handleBacked_preserved:
  assumes "handleBacked w"
  shows "handleBacked (snd (setGeminiApiKey ctor key w))
       \<and> handleBacked (snd (loadApiKeyFromStorage ctor w))
       \<and> handleBacked (clearGeminiApiKey w)
       \<and> handleBacked (snd (analyzeChartWithGemini ctor remote parse img mime w))"
proof -
  have s: "handleBacked (snd (setGeminiApiKey ctor key w))"
    by (simp add: handleBacked_def setGeminiApiKey_def split: sum.splits)
  have l: "handleBacked (snd (loadApiKeyFromStorage ctor w))"
    by (simp add: handleBacked_def loadApiKeyFromStorage_def split: option.splits sum.splits)
  have c: "handleBacked (clearGeminiApiKey w)"
    by (simp add: handleBacked_def clearGeminiApiKey_def)
  obtain r w1 where e: "ensureClient ctor w = (r, w1)"
    by (cases "ensureClient ctor w")
  have w1: "handleBacked w1"
  proof (cases "ai w")
    case None
    with e have "w1 = snd (loadApiKeyFromStorage ctor w)"
      by (auto simp: ensureClient_def split: prod.splits option.splits if_splits)
    with l show ?thesis by simp
  next
    case (Some c)
    with e assms show ?thesis
      by (simp add: ensureClient_def)
  qed
  have k: "handleBacked (snd (classify m (w1\<lparr>sent := x\<rparr>)))" for m x
    using w1 by (simp add: handleBacked_def classify_def split: option.splits)
  have a: "handleBacked (snd (analyzeChartWithGemini ctor remote parse img mime w))"
  proof (cases r)
    case (Inl err)
    with e w1 show ?thesis
      by (simp add: analyzeChartWithGemini_def)
  next
    case (Inr cl)
    show ?thesis
    proof (cases "generate remote parse cl (mkRequest img mime)")
      case (Inl m)
      from analyze_thrown [OF e [unfolded Inr] Inl] k show ?thesis
        by simp
    next
      case (Inr d)
      with e \<open>r = Inr cl\<close> w1 show ?thesis
        by (simp add: analyzeChartWithGemini_def Let_def handleBacked_def)
    qed
  qed
  from s l c a show ?thesis
    by (intro conjI)
qed

theorem handleBacked_preserved_witness:
  "handleBacked readyWorld
   \<and> handleBacked (snd (setGeminiApiKey ctorAccepts ''k2'' readyWorld))
   \<and> handleBacked (snd (loadApiKeyFromStorage ctorAccepts readyWorld))
   \<and> handleBacked (clearGeminiApiKey readyWorld)
   \<and> handleBacked (snd (analyzeChartWithGemini ctorAccepts
        (remoteAlways (Rejects (Some ''API key not valid''))) parseTrends ''aW1n'' ''image/png''
        readyWorld))"
proof -
  have h: "handleBacked readyWorld"
    by (simp add: handleBacked_def readyWorld_def)
  from handleBacked_preserved [where ctor = ctorAccepts and key = "''k2''" and parse = parseTrends
      and remote = "remoteAlways (Rejects (Some ''API key not valid''))"
      and img = "''aW1n''" and mime = "''image/png''", OF h] h
  show ?thesis
    by (intro conjI) simp_all
qed

section \<open>The fence pattern on a wrapped document\<close>

lemma startsWith_iff: "startsWith s l \<longleftrightarrow> (\<exists>r. s = l @ r)"
  by (induction s l rule: startsWith.induct) auto

lemma lit_append: "lit l (l @ r) k = k r"
  by (simp add: lit_def startsWith_iff)

lemma lit_Some: "lit l s k = Some v \<Longrightarrow> \<exists>r. s = l @ r \<and> k r = Some v"
  by (auto simp: lit_def startsWith_iff split: if_splits)

lemma star_greedy_stop: "r = [] \<or> \<not> p (hd r) \<Longrightarrow> star_greedy p r k = k r"
  by (cases r) auto

lemma star_greedy_run:
  "\<forall>c\<in>set u. p c \<Longrightarrow> r = [] \<or> \<not> p (hd r) \<Longrightarrow> k r = Some v \<Longrightarrow> star_greedy p (u @ r) k = Some v"
  by (induction u) (auto simp: star_greedy_stop)

lemma star_greedy_Some:
  "star_greedy p s k = Some v \<Longrightarrow> \<exists>u r. s = u @ r \<and> (\<forall>c\<in>set u. p c) \<and> k r = Some v"
proof (induction s)
  case Nil
  then show ?case by simp
next
  case (Cons c cs)
  show ?case
  proof (cases "p c \<and> star_greedy p cs k = Some v")
    case True
    with Cons.IH obtain u r where "cs = u @ r" "\<forall>c\<in>set u. p c" "k r = Some v"
      by blast
    with True have "c # cs = (c # u) @ r \<and> (\<forall>x\<in>set (c # u). p x) \<and> k r = Some v"
      by simp
    then show ?thesis by blast
  next
    case False
    with Cons.prems have "k (c # cs) = Some v"
      by (auto split: if_splits option.splits)
    then have "c # cs = [] @ (c # cs) \<and> (\<forall>x\<in>set []. p x) \<and> k (c # cs) = Some v"
      by simp
    then show ?thesis by blast
  qed
qed

lemma opt_greedy_Some:
  "opt_greedy x s k = Some v \<Longrightarrow> k s = Some v \<or> (\<exists>cs. s = x # cs \<and> k cs = Some v)"
  by (cases s) (auto split: if_splits option.splits)

lemma lazy_any_hit: "k acc s = Some v \<Longrightarrow> lazy_any acc s k = Some v"
  by (cases s) auto

lemma lazy_any_skip:
  "(\<And>i. i < length u \<Longrightarrow> k (acc @ take i u) (drop i u @ r) = None)
   \<Longrightarrow> lazy_any acc (u @ r) k = lazy_any (acc @ u) r k"
proof (induction u arbitrary: acc)
  case Nil
  then show ?case by simp
next
  case (Cons c u)
  from Cons.prems [of 0] have first: "k acc (c # u @ r) = None"
    by simp
  have "\<And>i. i < length u \<Longrightarrow> k ((acc @ [c]) @ take i u) (drop i u @ r) = None"
    using Cons.prems [of "Suc _"] by simp
  then have "lazy_any (acc @ [c]) (u @ r) k = lazy_any ((acc @ [c]) @ u) r k"
    by (rule Cons.IH)
  with first show ?case by simp
qed


lemma fence_not_space: "fence \<noteq> [] \<and> \<not> is_space (hd fence) \<and> \<not> is_space (last fence)"
  by (simp add: fence_def is_space_def)

lemma newline_space: "is_space newline"
  by (simp add: newline_def is_space_def)

lemma opt_greedy_both:
  "k s = Some v \<Longrightarrow> (\<And>cs. s = x # cs \<Longrightarrow> k cs = Some v) \<Longrightarrow> opt_greedy x s k = Some v"
  by (cases s) auto

lemma fenceTail_ok:
  assumes "\<forall>c\<in>set ws. is_space c"
  shows "fenceTail g (ws @ fence) = Some g"
proof -
  let ?k = "\<lambda>s1. star_greedy is_space s1 (\<lambda>s2. lit fence s2 (at_end g))"
  have stop: "fence = [] \<or> \<not> is_space (hd fence)"
    using fence_not_space by simp
  have fin: "lit fence fence (at_end g) = Some g"
    using lit_append [of fence "[]" "at_end g"] by (simp add: at_end_def)
  have run: "?k (u @ fence) = Some g" if "\<forall>c\<in>set u. is_space c" for u
    using that stop fin by (rule star_greedy_run)
  have whole: "?k (ws @ fence) = Some g"
    using assms by (rule run)
  have rest: "?k cs = Some g" if "ws @ fence = newline # cs" for cs
  proof (cases ws)
    case Nil
    with that show ?thesis
      by (simp add: fence_def newline_def)
  next
    case (Cons c u)
    with that assms have "cs = u @ fence" "\<forall>c\<in>set u. is_space c"
      by simp_all
    then show ?thesis
      using run by simp
  qed
  have "opt_greedy newline (ws @ fence) ?k = Some g"
    using whole rest by (rule opt_greedy_both)
  then show ?thesis
    by (simp add: fenceTail_def)
qed

lemma fenceTail_Some:
  assumes "fenceTail g s = Some v"
  shows "v = g \<and> (\<exists>ws. s = ws @ fence \<and> (\<forall>c\<in>set ws. is_space c))"
proof -
  let ?k = "\<lambda>s1. star_greedy is_space s1 (\<lambda>s2. lit fence s2 (at_end g))"
  have k: "v = g \<and> (\<exists>ws. x = ws @ fence \<and> (\<forall>c\<in>set ws. is_space c))" if "?k x = Some v" for x
  proof -
    from that have "\<exists>u r. x = u @ r \<and> (\<forall>c\<in>set u. is_space c) \<and> lit fence r (at_end g) = Some v"
      by (rule star_greedy_Some)
    then obtain u r
      where x: "x = u @ r" and u: "\<forall>c\<in>set u. is_space c" and r: "lit fence r (at_end g) = Some v"
      by (elim exE conjE)
    from r have "\<exists>r'. r = fence @ r' \<and> at_end g r' = Some v"
      by (rule lit_Some)
    then obtain r' where "r = fence @ r'" "at_end g r' = Some v"
      by (elim exE conjE)
    then have "r = fence" "v = g"
      by (simp_all add: at_end_def split: if_splits)
    with x u show ?thesis by simp
  qed
  from assms have "opt_greedy newline s ?k = Some v"
    by (simp add: fenceTail_def)
  then have "?k s = Some v \<or> (\<exists>cs. s = newline # cs \<and> ?k cs = Some v)"
    by (rule opt_greedy_Some)
  then show ?thesis
  proof (elim disjE exE conjE)
    assume "?k s = Some v"
    then show ?thesis by (rule k)
  next
    fix cs
    assume s: "s = newline # cs" and "?k cs = Some v"
    from this(2) have "v = g \<and> (\<exists>ws. cs = ws @ fence \<and> (\<forall>c\<in>set ws. is_space c))"
      by (rule k)
    then obtain ws where "v = g" "cs = ws @ fence" "\<forall>c\<in>set ws. is_space c"
      by (elim exE conjE)
    with s have "v = g \<and> s = (newline # ws) @ fence \<and> (\<forall>c\<in>set (newline # ws). is_space c)"
      by (simp add: newline_space)
    then show ?thesis by (intro conjI exI [of _ "newline # ws"]) simp_all
  qed
qed

lemma rev_dropWhile_split: "xs = rev (dropWhile P (rev xs)) @ rev (takeWhile P (rev xs))"
proof -
  have "rev (takeWhile P (rev xs) @ dropWhile P (rev xs)) = xs"
    by (simp only: takeWhile_dropWhile_id rev_rev_ident)
  then show ?thesis
    by (simp only: rev_append)
qed

lemma trim_id:
  assumes "s \<noteq> []" and "\<not> is_space (hd s)" and "\<not> is_space (last s)"
  shows "trim s = s"
proof -
  have a: "dropWhile is_space s = s"
    using assms(2) by (simp add: dropWhile_eq_self_iff)
  have "\<not> is_space (hd (rev s))"
    using assms(1,3) by (simp add: hd_rev)
  then have "dropWhile is_space (rev s) = rev s"
    by (simp add: dropWhile_eq_self_iff)
  with a show ?thesis
    by (simp add: trim_def)
qed

lemma trim_split: "dropWhile is_space t = trim t @ rev (takeWhile is_space (rev (dropWhile is_space t)))"
  unfolding trim_def by (rule rev_dropWhile_split)

lemma trim_decomp:
  "\<exists>lead trail. t = lead @ trim t @ trail \<and> (\<forall>c\<in>set lead. is_space c) \<and> (\<forall>c\<in>set trail. is_space c)"
proof -
  let ?lead = "takeWhile is_space t"
  let ?trail = "rev (takeWhile is_space (rev (dropWhile is_space t)))"
  have "t = ?lead @ dropWhile is_space t"
    by simp
  with trim_split [of t] have "t = ?lead @ trim t @ ?trail"
    by simp
  moreover have "\<forall>c\<in>set ?lead. is_space c"
    by (auto dest: set_takeWhileD)
  moreover have "\<forall>c\<in>set ?trail. is_space c"
    by (auto dest: set_takeWhileD)
  ultimately show ?thesis by blast
qed

lemma trim_ends:
  assumes "trim t \<noteq> []"
  shows "\<not> is_space (hd (trim t)) \<and> \<not> is_space (last (trim t))"
proof -
  let ?d = "dropWhile is_space t"
  let ?e = "dropWhile is_space (rev ?d)"
  from assms have e: "?e \<noteq> []"
    by (simp add: trim_def)
  then have "\<not> is_space (hd ?e)"
    by (rule hd_dropWhile)
  then have l: "\<not> is_space (last (trim t))"
    using e by (simp add: trim_def last_rev)
  from trim_split [of t] assms have d: "?d \<noteq> []" and h: "hd ?d = hd (trim t)"
    by (metis append_is_Nil_conv, metis hd_append2)
  from d have "\<not> is_space (hd ?d)"
    by (rule hd_dropWhile)
  with h l show ?thesis by simp
qed

lemma newline_not_word: "\<not> is_word newline"
  by (simp add: newline_def is_word_def)

lemma fenceRegex_wrapped:
  assumes tag: "\<forall>ch\<in>set tag. is_word ch"
    and lead: "\<forall>c\<in>set lead. is_space c"
    and trail: "\<forall>c\<in>set trail. is_space c"
    and core: "core \<noteq> []" "\<not> is_space (hd core)" "\<not> is_space (last core)"
  shows "fenceRegex (fence @ tag @ [newline] @ (lead @ core @ trail) @ [newline] @ fence) = Some core"
proof -
  let ?rest = "(trail @ [newline]) @ fence"
  let ?k4 = "\<lambda>s4. lazy_any [] s4 fenceTail"
  let ?k3 = "\<lambda>s3. opt_greedy newline s3 ?k4"
  let ?k2 = "\<lambda>s2. star_greedy is_space s2 ?k3"
  let ?k1 = "\<lambda>s1. star_greedy is_word s1 ?k2"
  have miss: "fenceTail ([] @ take i core) (drop i core @ ?rest) = None" if i: "i < length core" for i
  proof (rule ccontr)
    assume "fenceTail ([] @ take i core) (drop i core @ ?rest) \<noteq> None"
    then obtain v where "fenceTail ([] @ take i core) (drop i core @ ?rest) = Some v"
      by auto
    then have "\<exists>ws. drop i core @ ?rest = ws @ fence \<and> (\<forall>c\<in>set ws. is_space c)"
      by (rule fenceTail_Some [THEN conjunct2])
    then obtain ws where "drop i core @ ?rest = ws @ fence" and ws: "\<forall>c\<in>set ws. is_space c"
      by (elim exE conjE)
    then have eq: "ws = drop i core @ trail @ [newline]"
      by simp
    from i have "drop i core \<noteq> []" "last (drop i core) = last core"
      by simp_all
    then have "last core \<in> set (drop i core)"
      by (metis last_in_set)
    with eq ws core(3) show False
      by auto
  qed
  have "lazy_any [] (core @ ?rest) fenceTail = lazy_any ([] @ core) ?rest fenceTail"
    using miss by (rule lazy_any_skip)
  moreover have "fenceTail core ?rest = Some core"
    using trail by (intro fenceTail_ok) (auto simp: newline_space)
  ultimately have lazy: "?k4 (core @ ?rest) = Some core"
    by (simp add: lazy_any_hit)
  from core(1,2) have "hd core \<noteq> newline" "core = hd core # tl core"
    using newline_space by auto
  then have "opt_greedy newline (core @ ?rest) ?k4 = ?k4 (core @ ?rest)"
    by (metis append_Cons opt_greedy.simps(2))
  with lazy have opt: "?k3 (core @ ?rest) = Some core"
    by simp
  have "\<forall>c\<in>set (newline # lead). is_space c"
    using lead by (simp add: newline_space)
  moreover have "core @ ?rest = [] \<or> \<not> is_space (hd (core @ ?rest))"
    using core(1,2) by simp
  ultimately have "star_greedy is_space ((newline # lead) @ (core @ ?rest)) ?k3 = Some core"
    using opt by (rule star_greedy_run)
  then have sp: "?k2 ((newline # lead) @ (core @ ?rest)) = Some core" .
  have "(newline # lead) @ (core @ ?rest) = [] \<or> \<not> is_word (hd ((newline # lead) @ (core @ ?rest)))"
    by (simp add: newline_not_word)
  with tag have "star_greedy is_word (tag @ ((newline # lead) @ (core @ ?rest))) ?k2 = Some core"
    using sp by (rule star_greedy_run)
  then have "lit fence (fence @ (tag @ ((newline # lead) @ (core @ ?rest)))) ?k1 = Some core"
    by (simp only: lit_append)
  then show ?thesis
    by (simp add: fenceRegex_def)
qed

lemma extractJson_wrapped:
  assumes "\<forall>ch\<in>set tag. is_word ch" and "trim t \<noteq> []"
  shows "extractJson (fence @ tag @ [newline] @ t @ [newline] @ fence) = trim t"
proof -
  let ?F = "fence @ tag @ [newline] @ t @ [newline] @ fence"
  from trim_decomp [of t] obtain lead trail
    where t: "t = lead @ trim t @ trail"
      and sp: "\<forall>c\<in>set lead. is_space c" "\<forall>c\<in>set trail. is_space c"
    by (elim exE conjE)
  from assms(2) have ends: "\<not> is_space (hd (trim t))" "\<not> is_space (last (trim t))"
    using trim_ends by simp_all
  have "fenceRegex (fence @ tag @ [newline] @ (lead @ trim t @ trail) @ [newline] @ fence) = Some (trim t)"
    using assms(1) sp assms(2) ends by (rule fenceRegex_wrapped)
  with t have m: "fenceRegex ?F = Some (trim t)"
    by simp
  have "?F \<noteq> []" "hd ?F = hd fence" "last ?F = last fence"
    using fence_not_space by simp_all
  then have "trim ?F = ?F"
    using fence_not_space by (intro trim_id) simp_all
  moreover have "trim (trim t) = trim t"
    using assms(2) ends by (rule trim_id)
  ultimately show ?thesis
    using m assms(2) by (simp add: extractJson_def)
qed

lemma extractJson_bare:
  assumes "\<not> startsWith (trim t) fence"
  shows "extractJson t = trim t"
  using assms by (simp add: extractJson_def fenceRegex_def lit_def)

text \<open>
  C5. Let \<open>t\<close> be a text whose trimmed form is not empty and does not begin with three
  backticks, as every JSON text is (a JSON value begins with a brace, a bracket, a
  quote, a digit, a minus sign or a letter). Wrapped in a fenced block with an optional
  language tag of word characters, \<open>t\<close> is decoded to the same result as bare \<open>t\<close>,
  whatever \<open>JSON.parse\<close> does: in both cases the text handed to the parser is
  \<open>trim t\<close>.
\<close>

theorem fence_stripping:
  assumes "\<forall>ch\<in>set tag. is_word ch"
    and "trim t \<noteq> []"
    and "\<not> startsWith (trim t) fence"
  shows "decodeResponse parse (fence @ tag @ [newline] @ t @ [newline] @ fence)
       = decodeResponse parse t"
proof -
  have "extractJson (fence @ tag @ [newline] @ t @ [newline] @ fence) = trim t"
    using assms(1,2) by (rule extractJson_wrapped)
  moreover have "extractJson t = trim t"
    using assms(3) by (rule extractJson_bare)
  ultimately show ?thesis
    by (simp only: decodeResponse_def)
qed

theorem fence_stripping_witness:
  "list_all is_word ''json''
   \<and> trim trendsJson \<noteq> []
   \<and> \<not> startsWith (trim trendsJson) fence
   \<and> decodeResponse parseTrends (fence @ ''json'' @ [newline] @ trendsJson @ [newline] @ fence)
       = decodeResponse parseTrends trendsJson
   \<and> decodeResponse parseTrends trendsJson = Some [(''trends'', ''up'')]"
proof -
  have h1: "\<forall>ch\<in>set ''json''. is_word ch"
    by (simp add: is_word_def)
  have t: "trim trendsJson = trendsJson"
    by (simp add: trim_def trendsJson_def is_space_def)
  have h2: "trim trendsJson \<noteq> []"
    by (simp add: t) (simp add: trendsJson_def)
  have h3: "\<not> startsWith (trim trendsJson) fence"
    by (simp add: t) (simp add: trendsJson_def fence_def)
  have v: "decodeResponse parseTrends trendsJson = Some [(''trends'', ''up'')]"
    by (simp add: decodeResponse_def extractJson_bare [OF h3] t parseTrends_def)
  have w: "list_all is_word ''json''"
    by (simp add: is_word_def)
  from fence_stripping [where parse = parseTrends, OF h1 h2 h3] w h2 h3 v show ?thesis
    by (intro conjI)
qed

end
